theory Spec2Isabelle
  imports Complex_Main
begin

section \<open>JavaScript numbers and values\<close>

text \<open>
  The indicator and rule code computes with JavaScript numbers. A number is modelled as a
  finite real, one of the two infinities, or NaN. Finite arithmetic is exact (real)
  arithmetic: rounding and overflow of IEEE doubles are outside this model. What the model
  keeps is every place where the code leaves the finite numbers: a division by zero, an
  operand that is \<open>undefined\<close>, a comparison with NaN.

  The sign of zero is not modelled. It only matters for a zero divisor, and the divisors
  in the code below are \<open>period\<close> and \<open>period + 1\<close> for an integer \<open>period\<close>, which are
  never \<open>-0\<close>: a zero divisor is read as \<open>+0\<close>.
\<close>

datatype jsnum = Fin real | PInf | NInf | NaN

fun jneg :: "jsnum \<Rightarrow> jsnum" where
  "jneg (Fin a) = Fin (- a)"
| "jneg PInf = NInf"
| "jneg NInf = PInf"
| "jneg NaN = NaN"

fun jadd :: "jsnum \<Rightarrow> jsnum \<Rightarrow> jsnum" where
  "jadd (Fin a) (Fin b) = Fin (a + b)"
| "jadd NaN _ = NaN"
| "jadd _ NaN = NaN"
| "jadd PInf NInf = NaN"
| "jadd NInf PInf = NaN"
| "jadd PInf _ = PInf"
| "jadd _ PInf = PInf"
| "jadd NInf _ = NInf"
| "jadd _ NInf = NInf"

definition jsub :: "jsnum \<Rightarrow> jsnum \<Rightarrow> jsnum" where
  "jsub a b = jadd a (jneg b)"

fun jmul :: "jsnum \<Rightarrow> jsnum \<Rightarrow> jsnum" where
  "jmul (Fin a) (Fin b) = Fin (a * b)"
| "jmul NaN _ = NaN"
| "jmul _ NaN = NaN"
| "jmul (Fin a) PInf = (if a = 0 then NaN else if 0 < a then PInf else NInf)"
| "jmul (Fin a) NInf = (if a = 0 then NaN else if 0 < a then NInf else PInf)"
| "jmul PInf (Fin b) = (if b = 0 then NaN else if 0 < b then PInf else NInf)"
| "jmul NInf (Fin b) = (if b = 0 then NaN else if 0 < b then NInf else PInf)"
| "jmul PInf PInf = PInf"
| "jmul PInf NInf = NInf"
| "jmul NInf PInf = NInf"
| "jmul NInf NInf = PInf"

fun jdiv :: "jsnum \<Rightarrow> jsnum \<Rightarrow> jsnum" where
  "jdiv (Fin a) (Fin b) =
     (if b = 0 then (if a = 0 then NaN else if 0 < a then PInf else NInf)
      else Fin (a / b))"
| "jdiv NaN _ = NaN"
| "jdiv _ NaN = NaN"
| "jdiv (Fin a) PInf = Fin 0"
| "jdiv (Fin a) NInf = Fin 0"
| "jdiv PInf (Fin b) = (if 0 \<le> b then PInf else NInf)"
| "jdiv NInf (Fin b) = (if 0 \<le> b then NInf else PInf)"
| "jdiv PInf PInf = NaN"
| "jdiv PInf NInf = NaN"
| "jdiv NInf PInf = NaN"
| "jdiv NInf NInf = NaN"

fun jabs :: "jsnum \<Rightarrow> jsnum" where
  "jabs (Fin a) = Fin \<bar>a\<bar>"
| "jabs PInf = PInf"
| "jabs NInf = PInf"
| "jabs NaN = NaN"

text \<open>The comparison \<open>x > y\<close>: false as soon as one side is NaN.\<close>

fun jgt :: "jsnum \<Rightarrow> jsnum \<Rightarrow> bool" where
  "jgt (Fin a) (Fin b) = (b < a)"
| "jgt NaN _ = False"
| "jgt _ NaN = False"
| "jgt PInf PInf = False"
| "jgt PInf _ = True"
| "jgt NInf _ = False"
| "jgt _ PInf = False"
| "jgt _ NInf = True"

text \<open>
  \<open>xs[i]\<close> used as an arithmetic operand: an index outside the array reads
  \<open>undefined\<close>, which \<open>+\<close> and \<open>*\<close> turn into NaN.
\<close>

definition js_index :: "jsnum list \<Rightarrow> int \<Rightarrow> jsnum" where
  "js_index xs i = (if 0 \<le> i \<and> i < int (length xs) then xs ! nat i else NaN)"


section \<open>EMA and MACD (IndicatorsService)\<close>

subsection \<open>calculateManualEMA\<close>

text \<open>
  The first loop of \<open>calculateManualEMA\<close> and the division that follows it: the simple
  average of \<open>values[0]\<close> .. \<open>values[period - 1]\<close>, which seeds the recursion.
\<close>

definition emaSeed :: "jsnum list \<Rightarrow> int \<Rightarrow> jsnum" where
  "emaSeed values period =
     jdiv (fold (\<lambda>i s. jadd s (js_index values i)) [0..period - 1] (Fin 0))
          (Fin (of_int period))"

definition emaMultiplier :: "int \<Rightarrow> jsnum" where
  "emaMultiplier period = jdiv (Fin 2) (jadd (Fin (of_int period)) (Fin 1))"

text \<open>One round of the second loop: \<open>ema = values[i] * multiplier + ema * (1 - multiplier)\<close>.\<close>

definition emaStep :: "jsnum list \<Rightarrow> jsnum \<Rightarrow> int \<Rightarrow> jsnum \<Rightarrow> jsnum" where
  "emaStep values multiplier i ema =
     jadd (jmul (js_index values i) multiplier) (jmul ema (jsub (Fin 1) multiplier))"

text \<open>
  \<open>calculateManualEMA(values, period)\<close>: \<open>None\<close> is the \<open>null\<close> it returns for an empty
  array and for fewer than \<open>period\<close> values. The two \<open>for\<close> loops run over the index
  ranges \<open>0 .. period - 1\<close> and \<open>period .. values.length - 1\<close>.
\<close>

definition calculateManualEMA :: "jsnum list \<Rightarrow> int \<Rightarrow> jsnum option" where
  "calculateManualEMA values period =
     (if values = [] then None
      else if int (length values) < period then None
      else Some (fold (emaStep values (emaMultiplier period))
                   [period..int (length values) - 1]
                   (emaSeed values period)))"

subsection \<open>The reference EMA of the specification\<close>





subsection \<open>calculateManualMACD\<close>

record 'a macd_triple =
  macd :: 'a
  signal :: 'a
  histogram :: 'a







subsection \<open>The reference MACD of the specification\<close>




section \<open>The condition evaluator (ConditionsService)\<close>

subsection \<open>Values and comparators\<close>

text \<open>
  An operand of a rule is \<open>null\<close>, \<open>undefined\<close> (a missing property) or a number.
\<close>

datatype jsval = JNull | JUndefined | JNum jsnum

text \<open>Numeric coercion, as the subtraction in the log lines applies it.\<close>

fun toNumber :: "jsval \<Rightarrow> jsnum" where
  "toNumber JNull = Fin 0"
| "toNumber JUndefined = NaN"
| "toNumber (JNum x) = x"

text \<open>The falsy values among these: \<open>null\<close>, \<open>undefined\<close>, \<open>0\<close> and NaN.\<close>

fun falsy :: "jsval \<Rightarrow> bool" where
  "falsy JNull = True"
| "falsy JUndefined = True"
| "falsy (JNum (Fin a)) = (a = 0)"
| "falsy (JNum NaN) = True"
| "falsy (JNum _) = False"

definition js_or :: "jsval \<Rightarrow> jsval \<Rightarrow> jsval" where
  "js_or a b = (if falsy a then b else a)"

text \<open>
  \<open>this.EPSILON\<close> and the default of \<open>percentageTolerance\<close>. The comparators take the
  tolerance as an argument here; the evaluators call them without it, so the model passes
  these defaults.
\<close>

definition EPSILON :: jsnum where
  "EPSILON = Fin (1 / 10 ^ 10)"

definition defaultPercentageTolerance :: jsnum where
  "defaultPercentageTolerance = Fin (1 / 10000)"

definition isGreaterThan :: "jsval \<Rightarrow> jsval \<Rightarrow> jsnum \<Rightarrow> bool" where
  "isGreaterThan a b tolerance =
     (if a = JNull \<or> a = JUndefined \<or> b = JNull \<or> b = JUndefined then False
      else jgt (jsub (toNumber a) (toNumber b)) tolerance)"

definition isGreaterThanWithTolerance :: "jsval \<Rightarrow> jsval \<Rightarrow> jsnum \<Rightarrow> bool" where
  "isGreaterThanWithTolerance a b percentageTolerance =
     (if a = JNull \<or> a = JUndefined \<or> b = JNull \<or> b = JUndefined then False
      else
        let tolerance = jmul (jabs (toNumber b)) percentageTolerance
        in jgt (jsub (toNumber a) (toNumber b)) tolerance)"

subsection \<open>The evaluator's input\<close>

record candle =
  timestamp :: int
  c_open :: jsnum
  high :: jsnum
  low :: jsnum
  close :: jsnum
  volume :: jsnum

text \<open>
  The fields of the indicator bundle that the two evaluators read. \<open>macd1m\<close> and
  \<open>macd5m\<close> are \<open>None\<close> for \<open>null\<close>, \<open>undefined\<close> or a value that is not an object.
\<close>

record indicators =
  ema1m18 :: jsval
  ema1m200 :: jsval
  ema5m18 :: jsval
  ema5m200 :: jsval
  vwap1m :: jsval
  macd1m :: "jsval macd_triple option"
  macd5m :: "jsval macd_triple option"

record indicatorData =
  indicators :: indicators
  lastCandle :: "candle option"
  currentPrice :: jsval

definition getMACDHistogram :: "jsval macd_triple option \<Rightarrow> jsval" where
  "getMACDHistogram macdData =
     (case macdData of None \<Rightarrow> JNull | Some obj \<Rightarrow> js_or (histogram obj) JNull)"

definition getMACDValue :: "jsval macd_triple option \<Rightarrow> jsval" where
  "getMACDValue macdData =
     (case macdData of None \<Rightarrow> JNull | Some obj \<Rightarrow> js_or (macd obj) JNull)"

text \<open>\<open>lastCandle?.close\<close>.\<close>

definition lastCandleClose :: "candle option \<Rightarrow> jsval" where
  "lastCandleClose c = (case c of None \<Rightarrow> JUndefined | Some k \<Rightarrow> JNum (close k))"

text \<open>\<open>const closePrice = currentPrice || lastCandle?.close\<close>, the same line in both evaluators.\<close>

definition closePriceOf :: "indicatorData \<Rightarrow> jsval" where
  "closePriceOf d = js_or (currentPrice d) (lastCandleClose (lastCandle d))"

subsection \<open>The verdict\<close>

text \<open>
  The texts of a failure record are template literals. A text is kept as the list of its
  pieces: a literal, the string form of a value (\<open>${v}\<close>), or a number printed by
  \<open>toFixed(6)\<close>. How JavaScript prints a number is not modelled.
\<close>

datatype piece = Lit string | Str jsval | Fixed6 jsnum

record failedCondition =
  name :: string
  expected :: "piece list"
  actual :: "piece list"
  condition :: string

record verdict =
  conditions :: "(string \<times> bool) list"
  passedConditions :: nat
  totalConditions :: nat
  allConditionsMet :: bool
  failedConditions :: "failedCondition list"
  score :: string
  debugInfo :: "(string \<times> jsval) list"
  allIndicatorValues :: indicators

text \<open>\<open>v || 'N/A'\<close> inside a text.\<close>

definition orNA :: "jsval \<Rightarrow> piece" where
  "orNA v = (if falsy v then Lit ''N/A'' else Str v)"

text \<open>The failure record of a MACD rule (conditions 1 and 2 of the seven, 1 of the three).\<close>

definition macdFailure :: "string \<Rightarrow> string \<Rightarrow> jsval \<Rightarrow> failedCondition" where
  "macdFailure key label v =
     \<lparr>name = label, expected = [Lit ''> 0''], actual = [orNA v], condition = key\<rparr>"

text \<open>
  The failure record of a rule that compares two values: \<open>expected\<close> is
  \<open>`L (${a}) > R (${b})`\<close> and \<open>actual\<close> is
  \<open>`${a || 'N/A'} vs ${b || 'N/A'} (diff: ${(a - b).toFixed(6)})`\<close>.
\<close>

definition comparisonFailure ::
    "string \<Rightarrow> string \<Rightarrow> string \<Rightarrow> string \<Rightarrow> jsval \<Rightarrow> jsval \<Rightarrow> failedCondition" where
  "comparisonFailure key label l r a b =
     \<lparr>name = label,
      expected = [Lit l, Lit '' ('', Str a, Lit '') > '', Lit r, Lit '' ('', Str b, Lit '')''],
      actual = [orNA a, Lit '' vs '', orNA b, Lit '' (diff: '',
                Fixed6 (jsub (toNumber a) (toNumber b)), Lit '')''],
      condition = key\<rparr>"

text \<open>Decimal digits of a count, for \<open>score\<close>.\<close>

function string_of_nat :: "nat \<Rightarrow> string" where
  "string_of_nat n =
     (if n < 10 then [''0123456789'' ! n]
      else string_of_nat (n div 10) @ [''0123456789'' ! (n mod 10)])"
  by pat_completeness auto
termination
  by (relation "measure id") auto

text \<open>
  The end of \<open>evaluateConditions\<close>, the same in both files: count the rules that hold
  (\<open>Object.values(conditions).filter(Boolean).length\<close>), count the rules
  (\<open>Object.keys(conditions).length\<close>), and build the object that is returned.
\<close>

definition makeVerdict ::
    "(string \<times> bool) list \<Rightarrow> failedCondition list \<Rightarrow> (string \<times> jsval) list \<Rightarrow> indicators
       \<Rightarrow> verdict" where
  "makeVerdict conds fails dbg ind =
     (let passed = length (filter (\<lambda>b. b) (map snd conds));
          total = length (map fst conds)
      in \<lparr>conditions = conds, passedConditions = passed, totalConditions = total,
          allConditionsMet = (passed = total), failedConditions = fails,
          score = string_of_nat passed @ ''/'' @ string_of_nat total,
          debugInfo = dbg, allIndicatorValues = ind\<rparr>)"

subsection \<open>The three rules of conditions.js\<close>

definition conditions3 :: "indicatorData \<Rightarrow> (string \<times> bool) list" where
  "conditions3 d =
     (let ind = indicators d;
          macd5mHistogram = getMACDHistogram (macd5m ind);
          closePrice = closePriceOf d
      in [(''macd5mPositive'', isGreaterThan macd5mHistogram (JNum (Fin 0)) EPSILON),
          (''ema18Above200_1m'',
             isGreaterThanWithTolerance (ema1m18 ind) (ema1m200 ind) defaultPercentageTolerance),
          (''priceAboveVwap'',
             isGreaterThanWithTolerance closePrice (vwap1m ind) defaultPercentageTolerance)])"

definition failedConditions3 :: "indicatorData \<Rightarrow> failedCondition list" where
  "failedConditions3 d =
     (let ind = indicators d;
          macd5mHistogram = getMACDHistogram (macd5m ind);
          closePrice = closePriceOf d
      in (if isGreaterThan macd5mHistogram (JNum (Fin 0)) EPSILON then []
          else [macdFailure ''macd5mPositive'' ''MACD Histogram (5m) > 0'' macd5mHistogram])
       @ (if isGreaterThanWithTolerance (ema1m18 ind) (ema1m200 ind) defaultPercentageTolerance
          then []
          else [comparisonFailure ''ema18Above200_1m'' ''EMA 18 (1m) > EMA 200 (1m)''
                  ''EMA 18'' ''EMA 200'' (ema1m18 ind) (ema1m200 ind)])
       @ (if isGreaterThanWithTolerance closePrice (vwap1m ind) defaultPercentageTolerance
          then []
          else [comparisonFailure ''priceAboveVwap'' ''Precio > VWAP (1m)''
                  ''Precio'' ''VWAP'' closePrice (vwap1m ind)]))"

text \<open>What \<open>evaluateConditions\<close> of conditions.js computes before it touches the statistics.\<close>

definition evaluateRules3 :: "indicatorData \<Rightarrow> verdict" where
  "evaluateRules3 d =
     makeVerdict (conditions3 d) (failedConditions3 d)
       [(''macd5mHistogram'', getMACDHistogram (macd5m (indicators d))),
        (''closePrice'', closePriceOf d)]
       (indicators d)"

text \<open>The operands of each of the three rules, in the order of the code.\<close>

definition ruleOperands3 :: "indicatorData \<Rightarrow> (string \<times> jsval \<times> jsval) list" where
  "ruleOperands3 d =
     [(''macd5mPositive'', getMACDHistogram (macd5m (indicators d)), JNum (Fin 0)),
      (''ema18Above200_1m'', ema1m18 (indicators d), ema1m200 (indicators d)),
      (''priceAboveVwap'', closePriceOf d, vwap1m (indicators d))]"

subsection \<open>The seven rules of the ConditionsService in polygonService.js\<close>

definition conditions7 :: "indicatorData \<Rightarrow> (string \<times> bool) list" where
  "conditions7 d =
     (let ind = indicators d;
          macd1mValue = getMACDValue (macd1m ind);
          macd5mValue = getMACDValue (macd5m ind);
          closePrice = closePriceOf d;
          p = defaultPercentageTolerance
      in [(''macd5mPositive'', isGreaterThan macd5mValue (JNum (Fin 0)) EPSILON),
          (''macd1mPositive'', isGreaterThan macd1mValue (JNum (Fin 0)) EPSILON),
          (''ema18Above200_1m'', isGreaterThanWithTolerance (ema1m18 ind) (ema1m200 ind) p),
          (''ema18AboveVwap_1m'', isGreaterThanWithTolerance (ema1m18 ind) (vwap1m ind) p),
          (''vwapAboveEma200_1m'', isGreaterThanWithTolerance (vwap1m ind) (ema1m200 ind) p),
          (''closeAboveEma18_1m'', isGreaterThanWithTolerance closePrice (ema1m18 ind) p),
          (''ema200AboveEma18_5m'', isGreaterThanWithTolerance (ema5m200 ind) (ema5m18 ind) p)])"

definition failedConditions7 :: "indicatorData \<Rightarrow> failedCondition list" where
  "failedConditions7 d =
     (let ind = indicators d;
          macd1mValue = getMACDValue (macd1m ind);
          macd5mValue = getMACDValue (macd5m ind);
          closePrice = closePriceOf d;
          p = defaultPercentageTolerance
      in (if isGreaterThan macd5mValue (JNum (Fin 0)) EPSILON then []
          else [macdFailure ''macd5mPositive'' ''MACD (5m) > 0'' macd5mValue])
       @ (if isGreaterThan macd1mValue (JNum (Fin 0)) EPSILON then []
          else [macdFailure ''macd1mPositive'' ''MACD (1m) > 0'' macd1mValue])
       @ (if isGreaterThanWithTolerance (ema1m18 ind) (ema1m200 ind) p then []
          else [comparisonFailure ''ema18Above200_1m'' ''EMA 18 (1m) > EMA 200 (1m)''
                  ''EMA 18'' ''EMA 200'' (ema1m18 ind) (ema1m200 ind)])
       @ (if isGreaterThanWithTolerance (ema1m18 ind) (vwap1m ind) p then []
          else [comparisonFailure ''ema18AboveVwap_1m'' ''EMA 18 (1m) > VWAP (1m)''
                  ''EMA 18'' ''VWAP'' (ema1m18 ind) (vwap1m ind)])
       @ (if isGreaterThanWithTolerance (vwap1m ind) (ema1m200 ind) p then []
          else [comparisonFailure ''vwapAboveEma200_1m'' ''VWAP (1m) > EMA 200 (1m)''
                  ''VWAP'' ''EMA 200'' (vwap1m ind) (ema1m200 ind)])
       @ (if isGreaterThanWithTolerance closePrice (ema1m18 ind) p then []
          else [comparisonFailure ''closeAboveEma18_1m'' ''Close > EMA 18 (1m)''
                  ''Close'' ''EMA 18'' closePrice (ema1m18 ind)])
       @ (if isGreaterThanWithTolerance (ema5m200 ind) (ema5m18 ind) p then []
          else [comparisonFailure ''ema200AboveEma18_5m'' ''EMA 200 (5m) > EMA 18 (5m)''
                  ''EMA 200'' ''EMA 18'' (ema5m200 ind) (ema5m18 ind)]))"

definition evaluateRules7 :: "indicatorData \<Rightarrow> verdict" where
  "evaluateRules7 d =
     makeVerdict (conditions7 d) (failedConditions7 d)
       [(''macd1mValue'', getMACDValue (macd1m (indicators d))),
        (''macd5mValue'', getMACDValue (macd5m (indicators d))),
        (''closePrice'', closePriceOf d)]
       (indicators d)"

definition ruleOperands7 :: "indicatorData \<Rightarrow> (string \<times> jsval \<times> jsval) list" where
  "ruleOperands7 d =
     [(''macd5mPositive'', getMACDValue (macd5m (indicators d)), JNum (Fin 0)),
      (''macd1mPositive'', getMACDValue (macd1m (indicators d)), JNum (Fin 0)),
      (''ema18Above200_1m'', ema1m18 (indicators d), ema1m200 (indicators d)),
      (''ema18AboveVwap_1m'', ema1m18 (indicators d), vwap1m (indicators d)),
      (''vwapAboveEma200_1m'', vwap1m (indicators d), ema1m200 (indicators d)),
      (''closeAboveEma18_1m'', closePriceOf d, ema1m18 (indicators d)),
      (''ema200AboveEma18_5m'', ema5m200 (indicators d), ema5m18 (indicators d))]"

subsection \<open>Running statistics\<close>

text \<open>
  \<open>this.statistics\<close>: two counters and, per rule key, a pair of counters. The object
  \<open>conditionCounts\<close> is kept as the list of its properties in insertion order. Counters
  are natural numbers (a JavaScript number counts exactly up to \<open>2^53\<close>).
\<close>

record counts =
  passed :: nat
  failed :: nat

record statistics =
  totalEvaluations :: nat
  totalPassed :: nat
  conditionCounts :: "(string \<times> counts) list"

datatype js_error = TypeError

text \<open>
  \<open>this.statistics.conditionCounts[conditionKey].passed++\<close> (or \<open>.failed++\<close>). When the
  object has no property \<open>conditionKey\<close>, the property read is \<open>undefined\<close> and reading
  \<open>.passed\<close> of it throws a TypeError: that is \<open>None\<close> here.
\<close>

definition countOutcome :: "bool \<Rightarrow> counts \<Rightarrow> counts" where
  "countOutcome b c = (if b then c\<lparr>passed := passed c + 1\<rparr> else c\<lparr>failed := failed c + 1\<rparr>)"

fun incrementCount :: "string \<Rightarrow> bool \<Rightarrow> (string \<times> counts) list \<Rightarrow> (string \<times> counts) list option" where
  "incrementCount k b [] = None"
| "incrementCount k b ((k', c) # rest) =
     (if k = k' then Some ((k', countOutcome b c) # rest)
      else map_option ((#) (k', c)) (incrementCount k b rest))"

text \<open>
  \<open>Object.keys(conditions).forEach(...)\<close>: the counters are updated in place, so an
  exception leaves the updates made before it.
\<close>

fun updateCounts :: "(string \<times> bool) list \<Rightarrow> (string \<times> counts) list
                       \<Rightarrow> js_error option \<times> (string \<times> counts) list" where
  "updateCounts [] cc = (None, cc)"
| "updateCounts ((k, b) # rest) cc =
     (case incrementCount k b cc of
        None \<Rightarrow> (Some TypeError, cc)
      | Some cc' \<Rightarrow> updateCounts rest cc')"

definition updateStatistics :: "(string \<times> bool) list \<Rightarrow> bool \<Rightarrow> statistics
                                  \<Rightarrow> js_error option \<times> statistics" where
  "updateStatistics conds allMet st =
     (let st1 = st\<lparr>totalEvaluations := totalEvaluations st + 1\<rparr>;
          st2 = (if allMet then st1\<lparr>totalPassed := totalPassed st1 + 1\<rparr> else st1);
          (err, cc) = updateCounts conds (conditionCounts st2)
      in (err, st2\<lparr>conditionCounts := cc\<rparr>))"

definition zeroCounts :: counts where
  "zeroCounts = \<lparr>passed = 0, failed = 0\<rparr>"

text \<open>The statistics that the constructor of conditions.js sets up.\<close>

definition newStatistics3 :: statistics where
  "newStatistics3 =
     \<lparr>totalEvaluations = 0, totalPassed = 0,
      conditionCounts = [(''macd5mPositive'', zeroCounts), (''ema18Above200_1m'', zeroCounts),
                         (''priceAboveVwap'', zeroCounts)]\<rparr>"

text \<open>
  The statistics that the constructor of the service in polygonService.js sets up, and that
  \<open>resetStatistics\<close> assigns in both files.
\<close>

definition newStatistics7 :: statistics where
  "newStatistics7 =
     \<lparr>totalEvaluations = 0, totalPassed = 0,
      conditionCounts = [(''macd5mPositive'', zeroCounts), (''macd1mPositive'', zeroCounts),
                         (''ema18Above200_1m'', zeroCounts), (''ema18AboveVwap_1m'', zeroCounts),
                         (''vwapAboveEma200_1m'', zeroCounts), (''closeAboveEma18_1m'', zeroCounts),
                         (''ema200AboveEma18_5m'', zeroCounts)]\<rparr>"

text \<open>
  \<open>resetStatistics\<close> of conditions.js assigns the object with the seven keys of the other
  rule set; \<open>priceAboveVwap\<close> is not among them.
\<close>

definition resetStatistics3 :: "statistics \<Rightarrow> statistics" where
  "resetStatistics3 st = newStatistics7"

definition resetStatistics7 :: "statistics \<Rightarrow> statistics" where
  "resetStatistics7 st = newStatistics7"

subsection \<open>evaluateConditions\<close>

text \<open>
  \<open>evaluateConditions(indicatorData)\<close> with the statistics passed in and out. The call
  of \<open>saveDebugLog\<close> catches its own exceptions and changes nothing that is modelled.
  \<open>updateStatistics\<close> is called outside any \<open>try\<close>: its exception leaves
  \<open>evaluateConditions\<close>, and no verdict is returned.
\<close>

definition finishEvaluation :: "verdict \<Rightarrow> statistics \<Rightarrow> (js_error + verdict) \<times> statistics" where
  "finishEvaluation v st =
     (case updateStatistics (conditions v) (allConditionsMet v) st of
        (None, st') \<Rightarrow> (Inr v, st')
      | (Some e, st') \<Rightarrow> (Inl e, st'))"

definition evaluateConditions3 :: "indicatorData \<Rightarrow> statistics \<Rightarrow> (js_error + verdict) \<times> statistics" where
  "evaluateConditions3 d st = finishEvaluation (evaluateRules3 d) st"

definition evaluateConditions7 :: "indicatorData \<Rightarrow> statistics \<Rightarrow> (js_error + verdict) \<times> statistics" where
  "evaluateConditions7 d st = finishEvaluation (evaluateRules7 d) st"

text \<open>
  A sequence of calls of an evaluator, one after the other on the same service: the results
  in order, and the statistics at the end.
\<close>

fun callAll :: "(indicatorData \<Rightarrow> statistics \<Rightarrow> (js_error + verdict) \<times> statistics)
                  \<Rightarrow> indicatorData list \<Rightarrow> statistics \<Rightarrow> (js_error + verdict) list \<times> statistics" where
  "callAll ev [] st = ([], st)"
| "callAll ev (d # ds) st =
     (case ev d st of
        (r, st') \<Rightarrow> (case callAll ev ds st' of (rs, st'') \<Rightarrow> (r # rs, st'')))"

definition evaluateAll3 :: "indicatorData list \<Rightarrow> statistics \<Rightarrow> (js_error + verdict) list \<times> statistics" where
  "evaluateAll3 = callAll evaluateConditions3"

definition evaluateAll7 :: "indicatorData list \<Rightarrow> statistics \<Rightarrow> (js_error + verdict) list \<times> statistics" where
  "evaluateAll7 = callAll evaluateConditions7"

text \<open>
  The statistics that the service of polygonService.js can hold: those of the constructor,
  and those after a call of \<open>evaluateConditions\<close> or of \<open>resetStatistics\<close>.
\<close>

inductive reachable7 :: "statistics \<Rightarrow> bool" where
  "reachable7 newStatistics7"
| "reachable7 st \<Longrightarrow> reachable7 (snd (evaluateConditions7 d st))"
| "reachable7 st \<Longrightarrow> reachable7 (resetStatistics7 st)"

text \<open>The counters of a rule key, when the statistics have them.\<close>

definition countsOf :: "statistics \<Rightarrow> string \<Rightarrow> counts option" where
  "countsOf st k = map_of (conditionCounts st) k"

definition ruleKeys3 :: "string list" where
  "ruleKeys3 = [''macd5mPositive'', ''ema18Above200_1m'', ''priceAboveVwap'']"

definition ruleKeys7 :: "string list" where
  "ruleKeys7 = [''macd5mPositive'', ''macd1mPositive'', ''ema18Above200_1m'',
                ''ema18AboveVwap_1m'', ''vwapAboveEma200_1m'', ''closeAboveEma18_1m'',
                ''ema200AboveEma18_5m'']"


subsection \<open>The invariants of the specification\<close>

text \<open>A rule has both operands when neither is \<open>null\<close> or \<open>undefined\<close>.\<close>

definition nullish :: "jsval \<Rightarrow> bool" where
  "nullish v = (v = JNull \<or> v = JUndefined)"

definition operandsDefined :: "string \<times> jsval \<times> jsval \<Rightarrow> bool" where
  "operandsDefined r = (case r of (k, a, b) \<Rightarrow> \<not> nullish a \<and> \<not> nullish b)"

text \<open>
  The verdict invariants, in the specification's words, for a verdict \<open>v\<close> and the
  operands \<open>ops\<close> of the rules it was computed from: the passed count is the number of
  keys mapped to true, the total is the number of rules, all rules are met exactly when the
  two counts agree, and a rule that lacks an operand is mapped to false and so is not among
  the rules counted as passed.
\<close>

definition verdictInvariants :: "verdict \<Rightarrow> (string \<times> jsval \<times> jsval) list \<Rightarrow> bool" where
  "verdictInvariants v ops \<longleftrightarrow>
     passedConditions v = card {k. map_of (conditions v) k = Some True}
     \<and> totalConditions v = length ops
     \<and> map fst (conditions v) = map fst ops
     \<and> (allConditionsMet v \<longleftrightarrow> passedConditions v = totalConditions v)
     \<and> (\<forall>r \<in> set ops. \<not> operandsDefined r \<longrightarrow> map_of (conditions v) (fst r) = Some False)
     \<and> passedConditions v \<le> length (filter operandsDefined ops)"

text \<open>The statistics have a pair of counters for each of the keys.\<close>

definition hasCounters :: "statistics \<Rightarrow> string list \<Rightarrow> bool" where
  "hasCounters st keys \<longleftrightarrow> (\<forall>k \<in> set keys. countsOf st k \<noteq> None)"

text \<open>
  The statistics are consistent for the keys: each key has counters whose sum is the number
  of evaluations, and no more evaluations passed than were made.
\<close>

definition statisticsConsistent :: "statistics \<Rightarrow> string list \<Rightarrow> bool" where
  "statisticsConsistent st keys \<longleftrightarrow>
     totalPassed st \<le> totalEvaluations st
     \<and> (\<forall>k \<in> set keys. \<exists>c. countsOf st k = Some c
            \<and> passed c + failed c = totalEvaluations st)"

subsection \<open>Two inputs\<close>

text \<open>
  A bundle in which every indicator is \<open>null\<close>, with no last candle and no price; and
  a bundle that passes every rule of both rule sets, with a current price of \<open>0\<close> and a
  last close of \<open>104\<close>.
\<close>

definition nullData :: indicatorData where
  "nullData =
     \<lparr>indicators = \<lparr>ema1m18 = JNull, ema1m200 = JNull, ema5m18 = JNull, ema5m200 = JNull,
                     vwap1m = JNull, macd1m = None, macd5m = None\<rparr>,
      lastCandle = None, currentPrice = JNull\<rparr>"

definition sampleData :: indicatorData where
  "sampleData =
     \<lparr>indicators =
        \<lparr>ema1m18 = JNum (Fin 102), ema1m200 = JNum (Fin 100), ema5m18 = JNum (Fin 100),
         ema5m200 = JNum (Fin 103), vwap1m = JNum (Fin 101),
         macd1m = Some \<lparr>macd = JNum (Fin (1 / 2)), signal = JNum (Fin (2 / 5)),
                        histogram = JNum (Fin (1 / 10))\<rparr>,
         macd5m = Some \<lparr>macd = JNum (Fin (3 / 10)), signal = JNum (Fin (27 / 100)),
                        histogram = JNum (Fin (3 / 100))\<rparr>\<rparr>,
      lastCandle = Some \<lparr>timestamp = 1700000000000, c_open = Fin 103, high = Fin 105,
                          low = Fin 102, close = Fin 104, volume = Fin 1000\<rparr>,
      currentPrice = JNum (Fin 0)\<rparr>"


section \<open>Historical data acquisition (processAlertNormally)\<close>

text \<open>
  One round of the two fetches: \<open>Promise.all\<close> rejects when a fetch throws, else it gives
  the two arrays, each of which the code allows to be \<open>null\<close> or \<open>undefined\<close> (\<open>None\<close>).
\<close>

datatype response = Rejected | Fetched "candle list option" "candle list option"

datatype acq_failure = ProviderError | NoData | InsufficientData

text \<open>
  The filter of both timeframes: the UTC minute of the day of the candle's timestamp
  (milliseconds since the epoch) lies in 13:30 .. 20:00.
\<close>

definition isMarketHours :: "candle \<Rightarrow> bool" where
  "isMarketHours c =
     (let utcHours = (timestamp c div 3600000) mod 24;
          utcMinutes = (timestamp c div 60000) mod 60;
          utcTimeInMinutes = utcHours * 60 + utcMinutes;
          marketStartUTC = 13 * 60 + 30;
          marketEndUTC = 20 * 60
      in marketStartUTC \<le> utcTimeInMinutes \<and> utcTimeInMinutes < marketEndUTC)"

text \<open>\<open>candles5m?.filter(...) || []\<close>.\<close>

definition marketHoursOnly :: "candle list option \<Rightarrow> candle list" where
  "marketHoursOnly cs = (case cs of None \<Rightarrow> [] | Some l \<Rightarrow> filter isMarketHours l)"

text \<open>The first test of a round, on the filtered sequences: at least 200 and at least 50.\<close>

definition sessionTest :: "candle list \<Rightarrow> candle list option \<Rightarrow> bool" where
  "sessionTest c1 c5 \<longleftrightarrow>
     200 \<le> length (filter isMarketHours c1) \<and> 50 \<le> length (marketHoursOnly c5)"

definition maxAttempts :: nat where
  "maxAttempts = 4"

text \<open>
  The \<open>while\<close> loop. \<open>fetch attemptCount daysToFetch\<close> is what the provider answers in
  that round. The loop ends with \<open>Inl\<close> where the code returns \<open>null\<close> from inside it,
  and else with the values of \<open>candles1m\<close>, \<open>candles5m\<close> and \<open>usedMarketHoursOnly\<close> at
  its exit.
\<close>

function acquireLoop ::
    "(nat \<Rightarrow> nat \<Rightarrow> response) \<Rightarrow> nat \<Rightarrow> nat \<Rightarrow> candle list option \<Rightarrow> candle list option
       \<Rightarrow> acq_failure + (candle list option \<times> candle list option \<times> bool)" where
  "acquireLoop fetch daysToFetch attemptCount candles1m candles5m =
     (if attemptCount < maxAttempts then
        (case fetch attemptCount daysToFetch of
           Rejected \<Rightarrow> Inl ProviderError
         | Fetched None c5 \<Rightarrow> Inl NoData
         | Fetched (Some c1) c5 \<Rightarrow>
             if c1 = [] then Inl NoData
             else if sessionTest c1 c5
             then Inr (Some (filter isMarketHours c1), Some (marketHoursOnly c5), True)
             else if 200 \<le> length c1 \<and> attemptCount = maxAttempts - 1
             then Inr (Some c1, c5, False)
             else acquireLoop fetch
                    (if daysToFetch = 10 then 15 else if daysToFetch = 15 then 20 else 30)
                    (attemptCount + 1) (Some c1) c5)
      else Inr (candles1m, candles5m, False))"
  by pat_completeness auto
termination
  by (relation "measure (\<lambda>(f, d, a, c1, c5). maxAttempts - a)") auto

declare acquireLoop.simps [simp del]

text \<open>
  The loop from its start, then the check after it:
  \<open>if (!candles1m || candles1m.length < 200 || !candles5m || candles5m.length < 50) return null\<close>.
  \<open>Inr\<close> holds the two sequences that go on to the indicators and the evaluator.
\<close>

definition acquireCandles ::
    "(nat \<Rightarrow> nat \<Rightarrow> response) \<Rightarrow> acq_failure + (candle list \<times> candle list \<times> bool)" where
  "acquireCandles fetch =
     (case acquireLoop fetch 10 0 None None of
        Inl e \<Rightarrow> Inl e
      | Inr (None, c5, used) \<Rightarrow> Inl InsufficientData
      | Inr (Some c1, None, used) \<Rightarrow> Inl InsufficientData
      | Inr (Some c1, Some c5, used) \<Rightarrow>
          if length c1 < 200 \<or> length c5 < 50 then Inl InsufficientData
          else Inr (c1, c5, used))"

text \<open>
  A round that neither returns nor passes the first test: the loop goes on after it,
  unless it is the last round.
\<close>

fun roundFails :: "response \<Rightarrow> bool" where
  "roundFails (Fetched (Some c1) c5) = (c1 \<noteq> [] \<and> \<not> sessionTest c1 c5)"
| "roundFails _ = False"

subsection \<open>Two providers\<close>

text \<open>
  \<open>n\<close> candles, one every \<open>step\<close> milliseconds from 00:00 UTC of 14 November 2023
  (day 19675 after the epoch). With a step of one minute and of five minutes below, all of
  them lie before 13:30 UTC of that day.
\<close>

definition offHoursCandles :: "nat \<Rightarrow> int \<Rightarrow> candle list" where
  "offHoursCandles n step =
     map (\<lambda>i. \<lparr>timestamp = 19675 * 86400000 + int i * step, c_open = Fin 1, high = Fin 1,
                low = Fin 1, close = Fin 1, volume = Fin 100\<rparr>) [0..<n]"

text \<open>
  A provider that answers every round with 200 one-minute candles and 40 five-minute
  candles, and one that answers with 200 and 60, all outside the session.
\<close>

definition thinFetch :: "nat \<Rightarrow> nat \<Rightarrow> response" where
  "thinFetch attemptCount daysToFetch =
     Fetched (Some (offHoursCandles 200 60000)) (Some (offHoursCandles 40 300000))"

definition thickFetch :: "nat \<Rightarrow> nat \<Rightarrow> response" where
  "thickFetch attemptCount daysToFetch =
     Fetched (Some (offHoursCandles 200 60000)) (Some (offHoursCandles 60 300000))"


section \<open>Proofs\<close>

subsection \<open>The EMA against its reference\<close>












lemma calculateManualEMA_short:
  "int (length values) < period \<Longrightarrow> calculateManualEMA values period = None"
  by (simp add: calculateManualEMA_def)
















text \<open>
  A period of zero or less on a list that is not empty passes both guards: the seed is
  \<open>0 / 0\<close> for period 0, and the loop reads \<open>values[i]\<close> at a negative index for a
  negative period. The result is NaN.
\<close>

lemma emaStep_NaN: "emaStep vs m i NaN = NaN"
  by (cases "jmul (js_index vs i) m") (simp_all add: emaStep_def)

lemma fold_emaStep_NaN: "fold (emaStep vs m) is NaN = NaN"
  by (induction "is") (simp_all add: emaStep_NaN)

lemma emaStep_negative_index: "i < 0 \<Longrightarrow> emaStep vs m i e = NaN"
  by (simp add: emaStep_def js_index_def)

lemma calculateManualEMA_nonpositive_period:
  assumes "vs \<noteq> []" and "period \<le> 0"
  shows "calculateManualEMA vs period = Some NaN"
proof (cases "period = 0")
  case True
  then have "emaSeed vs period = NaN"
    by (simp add: emaSeed_def)
  with assms show ?thesis
    by (simp add: calculateManualEMA_def fold_emaStep_NaN)
next
  case False
  with assms have neg: "period < 0" by simp
  then have "[period..int (length vs) - 1] = period # [period + 1..int (length vs) - 1]"
    using upto_rec1 [of period "int (length vs) - 1"] by simp
  with assms neg show ?thesis
    by (simp add: calculateManualEMA_def emaStep_negative_index fold_emaStep_NaN)
qed

subsection \<open>The MACD against its reference\<close>
















subsection \<open>The comparators\<close>



lemma isGreaterThan_Fin:
  "isGreaterThan (JNum (Fin x)) (JNum (Fin y)) (Fin t) \<longleftrightarrow> t < x - y"
  by (simp add: isGreaterThan_def jsub_def)

lemma isGreaterThanWithTolerance_Fin:
  "isGreaterThanWithTolerance (JNum (Fin x)) (JNum (Fin y)) (Fin p) \<longleftrightarrow> \<bar>y\<bar> * p < x - y"
  by (simp add: isGreaterThanWithTolerance_def jsub_def)




subsection \<open>The reference price\<close>


















subsection \<open>Updating the counters\<close>

lemma incrementCount_keys:
  "incrementCount k b cc = Some cc' \<Longrightarrow> map fst cc' = map fst cc"
  by (induction cc arbitrary: cc') (auto split: if_splits)

lemma incrementCount_None_iff:
  "incrementCount k b cc = None \<longleftrightarrow> map_of cc k = None"
  by (induction cc) auto

lemma incrementCount_map_of:
  "incrementCount k b cc = Some cc' \<Longrightarrow>
     map_of cc' k' = (if k' = k then map_option (countOutcome b) (map_of cc k) else map_of cc k')"
  by (induction cc arbitrary: cc') (auto split: if_splits)

lemma map_of_None_keys: "map_of cc k = None \<longleftrightarrow> k \<notin> set (map fst cc)"
  by (simp add: map_of_eq_None_iff)

lemma updateCounts_missing:
  "\<exists>k \<in> set (map fst conds). map_of cc k = None \<Longrightarrow> fst (updateCounts conds cc) = Some TypeError"
proof (induction conds arbitrary: cc)
  case Nil
  then show ?case by simp
next
  case (Cons kb rest)
  obtain k b where kb: "kb = (k, b)" by (cases kb)
  show ?case
  proof (cases "incrementCount k b cc")
    case None
    then show ?thesis by (simp add: kb)
  next
    case (Some cc')
    then have here: "map_of cc k \<noteq> None"
      using incrementCount_None_iff [of k b cc] by simp
    have keys: "map fst cc' = map fst cc" using Some by (rule incrementCount_keys)
    from Cons.prems here kb obtain k' where k': "k' \<in> set (map fst rest)" "map_of cc k' = None"
      by auto
    then have "map_of cc' k' = None"
      using keys by (metis map_of_None_keys)
    with k' have "fst (updateCounts rest cc') = Some TypeError"
      by (intro Cons.IH) blast
    with Some show ?thesis by (simp add: kb)
  qed
qed

lemma updateCounts_ok:
  assumes "distinct (map fst conds)" and "\<forall>k \<in> set (map fst conds). map_of cc k \<noteq> None"
  shows "\<exists>cc'. updateCounts conds cc = (None, cc') \<and> map fst cc' = map fst cc
           \<and> (\<forall>k. map_of cc' k =
                 (case map_of conds k of None \<Rightarrow> map_of cc k
                  | Some b \<Rightarrow> map_option (countOutcome b) (map_of cc k)))"
  using assms
proof (induction conds arbitrary: cc)
  case Nil
  then show ?case by simp
next
  case (Cons kb rest)
  obtain k b where kb: "kb = (k, b)" by (cases kb)
  from Cons.prems kb have "map_of cc k \<noteq> None" by simp
  then obtain cc1 where cc1: "incrementCount k b cc = Some cc1"
    using incrementCount_None_iff [of k b cc] by (cases "incrementCount k b cc") auto
  have keys1: "map fst cc1 = map fst cc" using cc1 by (rule incrementCount_keys)
  have m1: "\<And>k'. map_of cc1 k' =
               (if k' = k then map_option (countOutcome b) (map_of cc k) else map_of cc k')"
    using cc1 by (rule incrementCount_map_of)
  have notin: "k \<notin> set (map fst rest)" using Cons.prems kb by simp
  have "\<forall>k' \<in> set (map fst rest). map_of cc1 k' \<noteq> None"
    using Cons.prems keys1 kb by (simp add: map_of_None_keys)
  moreover have "distinct (map fst rest)" using Cons.prems by simp
  ultimately obtain cc' where cc': "updateCounts rest cc1 = (None, cc')"
      "map fst cc' = map fst cc1"
      "\<forall>k'. map_of cc' k' = (case map_of rest k' of None \<Rightarrow> map_of cc1 k'
                  | Some b' \<Rightarrow> map_option (countOutcome b') (map_of cc1 k'))"
    using Cons.IH [of cc1] by blast
  have restk: "map_of rest k = None" using notin by (simp add: map_of_None_keys)
  have "\<forall>k'. map_of cc' k' = (case map_of (kb # rest) k' of None \<Rightarrow> map_of cc k'
                  | Some b' \<Rightarrow> map_option (countOutcome b') (map_of cc k'))"
  proof
    fix k'
    show "map_of cc' k' = (case map_of (kb # rest) k' of None \<Rightarrow> map_of cc k'
                  | Some b' \<Rightarrow> map_option (countOutcome b') (map_of cc k'))"
      using cc'(3) [rule_format, of k'] m1 [of k'] restk kb by (cases "k' = k") (simp_all split: option.split)
  qed
  with cc' cc1 keys1 kb show ?case by simp
qed

subsection \<open>Counting the rules that hold\<close>

lemma makeVerdict_fields:
  "conditions (makeVerdict c f g i) = c"
  "passedConditions (makeVerdict c f g i) = length (filter (\<lambda>b. b) (map snd c))"
  "totalConditions (makeVerdict c f g i) = length c"
  "allConditionsMet (makeVerdict c f g i) \<longleftrightarrow> length (filter (\<lambda>b. b) (map snd c)) = length c"
  "failedConditions (makeVerdict c f g i) = f"
  by (simp_all add: makeVerdict_def Let_def)

lemma keys_conditions3: "map fst (conditions3 d) = ruleKeys3"
  by (simp add: conditions3_def Let_def ruleKeys3_def)

lemma keys_conditions7: "map fst (conditions7 d) = ruleKeys7"
  by (simp add: conditions7_def Let_def ruleKeys7_def)

lemma distinct_ruleKeys3: "distinct ruleKeys3"
  by (simp add: ruleKeys3_def)

lemma distinct_ruleKeys7: "distinct ruleKeys7"
  by (simp add: ruleKeys7_def)

lemma length_ruleKeys: "length ruleKeys3 = 3" "length ruleKeys7 = 7"
  by (simp_all add: ruleKeys3_def ruleKeys7_def)

text \<open>Counting the rules that hold is counting the keys mapped to true.\<close>

lemma finite_true_keys: "finite {k. map_of conds k = Some True}"
proof -
  have "{k. map_of conds k = Some True} \<subseteq> dom (map_of conds)" by auto
  then show ?thesis by (rule finite_subset) (rule finite_dom_map_of)
qed

lemma count_true_card:
  "distinct (map fst conds) \<Longrightarrow>
     length (filter (\<lambda>b. b) (map snd conds)) = card {k. map_of conds k = Some True}"
proof (induction conds)
  case Nil
  then show ?case by simp
next
  case (Cons kb rest)
  obtain k b where kb: "kb = (k, b)" by (cases kb)
  from Cons.prems kb have notin: "k \<notin> set (map fst rest)" and d: "distinct (map fst rest)"
    by simp_all
  then have none: "map_of rest k = None" by (simp add: map_of_None_keys)
  have IH: "length (filter (\<lambda>b. b) (map snd rest)) = card {k. map_of rest k = Some True}"
    using Cons.IH d by simp
  show ?case
  proof (cases b)
    case True
    have "{k'. map_of (kb # rest) k' = Some True} = insert k {k'. map_of rest k' = Some True}"
      using kb True by auto
    moreover have "k \<notin> {k'. map_of rest k' = Some True}" using none by simp
    ultimately show ?thesis
      using IH kb True finite_true_keys [of rest] by simp
  next
    case False
    have "{k'. map_of (kb # rest) k' = Some True} = {k'. map_of rest k' = Some True}"
      using kb False none by auto
    then show ?thesis using IH kb False by simp
  qed
qed

text \<open>A rule that holds has both operands; so the rules that hold are at most the rules
  that have both operands, and a rule that lacks one is mapped to false.\<close>

lemma count_true_le:
  "list_all2 (\<lambda>c r. fst c = fst r \<and> (snd c \<longrightarrow> operandsDefined r)) conds ops \<Longrightarrow>
     length (filter (\<lambda>b. b) (map snd conds)) \<le> length (filter operandsDefined ops)"
  by (induction rule: list_all2_induct) auto

lemma undefined_operand_false:
  assumes "list_all2 (\<lambda>c r. fst c = fst r \<and> (snd c \<longrightarrow> operandsDefined r)) conds ops"
    and "distinct (map fst conds)" and "r \<in> set ops" and "\<not> operandsDefined r"
  shows "map_of conds (fst r) = Some False"
proof -
  from assms(3) obtain i where i: "i < length ops" "ops ! i = r"
    by (auto simp add: in_set_conv_nth)
  from assms(1) i have len: "i < length conds"
    and rel: "fst (conds ! i) = fst r \<and> (snd (conds ! i) \<longrightarrow> operandsDefined r)"
    by (auto simp add: list_all2_conv_all_nth)
  with assms(4) have "conds ! i = (fst r, False)"
    by (cases "conds ! i") auto
  with len have "(fst r, False) \<in> set conds"
    by (metis nth_mem)
  with assms(2) show ?thesis by simp
qed

lemma isGreaterThan_defined: "isGreaterThan a b t \<Longrightarrow> \<not> nullish a \<and> \<not> nullish b"
  by (auto simp add: isGreaterThan_def nullish_def split: if_splits)

lemma isGreaterThanWithTolerance_defined:
  "isGreaterThanWithTolerance a b p \<Longrightarrow> \<not> nullish a \<and> \<not> nullish b"
  by (auto simp add: isGreaterThanWithTolerance_def nullish_def split: if_splits)

lemma rules3_operands:
  "list_all2 (\<lambda>c r. fst c = fst r \<and> (snd c \<longrightarrow> operandsDefined r))
     (conditions3 d) (ruleOperands3 d)"
  by (simp add: conditions3_def ruleOperands3_def Let_def operandsDefined_def
        isGreaterThan_defined isGreaterThanWithTolerance_defined)

lemma rules7_operands:
  "list_all2 (\<lambda>c r. fst c = fst r \<and> (snd c \<longrightarrow> operandsDefined r))
     (conditions7 d) (ruleOperands7 d)"
  by (simp add: conditions7_def ruleOperands7_def Let_def operandsDefined_def
        isGreaterThan_defined isGreaterThanWithTolerance_defined)

subsection \<open>The verdict and its return\<close>

lemma finishEvaluation_returns:
  assumes "distinct (map fst (conditions v))"
    and "hasCounters st (map fst (conditions v))"
  shows "\<exists>st'. finishEvaluation v st = (Inr v, st')
           \<and> totalEvaluations st' = totalEvaluations st + 1
           \<and> totalPassed st' = totalPassed st + (if allConditionsMet v then 1 else 0)
           \<and> map fst (conditionCounts st') = map fst (conditionCounts st)
           \<and> (\<forall>k. countsOf st' k =
                 (case map_of (conditions v) k of None \<Rightarrow> countsOf st k
                  | Some b \<Rightarrow> map_option (countOutcome b) (countsOf st k)))"
proof -
  from assms(2) have "\<forall>k \<in> set (map fst (conditions v)). map_of (conditionCounts st) k \<noteq> None"
    by (simp add: hasCounters_def countsOf_def)
  with assms(1) obtain cc' where cc': "updateCounts (conditions v) (conditionCounts st) = (None, cc')"
      "map fst cc' = map fst (conditionCounts st)"
      "\<forall>k. map_of cc' k = (case map_of (conditions v) k of None \<Rightarrow> map_of (conditionCounts st) k
                  | Some b \<Rightarrow> map_option (countOutcome b) (map_of (conditionCounts st) k))"
    using updateCounts_ok [of "conditions v" "conditionCounts st"] by blast
  then show ?thesis
    unfolding countsOf_def
    by (simp add: finishEvaluation_def updateStatistics_def Let_def)
qed

lemma finishEvaluation_throws:
  assumes "\<not> hasCounters st (map fst (conditions v))"
  shows "\<exists>st'. finishEvaluation v st = (Inl TypeError, st')
           \<and> totalEvaluations st' = totalEvaluations st + 1
           \<and> totalPassed st' = totalPassed st + (if allConditionsMet v then 1 else 0)"
proof -
  from assms have "\<exists>k \<in> set (map fst (conditions v)). map_of (conditionCounts st) k = None"
    by (simp add: hasCounters_def countsOf_def)
  then have "fst (updateCounts (conditions v) (conditionCounts st)) = Some TypeError"
    by (rule updateCounts_missing)
  then obtain cc' where "updateCounts (conditions v) (conditionCounts st) = (Some TypeError, cc')"
    by (cases "updateCounts (conditions v) (conditionCounts st)") simp
  then show ?thesis
    by (simp add: finishEvaluation_def updateStatistics_def Let_def)
qed

lemma finishEvaluation_Inr: "fst (finishEvaluation v st) = Inr v' \<Longrightarrow> v' = v"
  by (auto simp add: finishEvaluation_def split: prod.splits option.splits)

lemma evaluateRules3_invariants: "verdictInvariants (evaluateRules3 d) (ruleOperands3 d)"
proof -
  have keys: "map fst (conditions3 d) = map fst (ruleOperands3 d)"
    by (simp add: conditions3_def ruleOperands3_def Let_def)
  have dist: "distinct (map fst (conditions3 d))"
    by (simp add: keys_conditions3 distinct_ruleKeys3)
  have len: "length (conditions3 d) = length (ruleOperands3 d)"
    using keys by (metis length_map)
  have undef: "\<forall>r \<in> set (ruleOperands3 d). \<not> operandsDefined r
                 \<longrightarrow> map_of (conditions3 d) (fst r) = Some False"
    using undefined_operand_false [OF rules3_operands [of d] dist] by blast
  show ?thesis
    unfolding verdictInvariants_def evaluateRules3_def makeVerdict_fields
    using keys len undef count_true_card [OF dist] count_true_le [OF rules3_operands [of d]]
    by simp
qed

lemma evaluateRules7_invariants: "verdictInvariants (evaluateRules7 d) (ruleOperands7 d)"
proof -
  have keys: "map fst (conditions7 d) = map fst (ruleOperands7 d)"
    by (simp add: conditions7_def ruleOperands7_def Let_def)
  have dist: "distinct (map fst (conditions7 d))"
    by (simp add: keys_conditions7 distinct_ruleKeys7)
  have len: "length (conditions7 d) = length (ruleOperands7 d)"
    using keys by (metis length_map)
  have undef: "\<forall>r \<in> set (ruleOperands7 d). \<not> operandsDefined r
                 \<longrightarrow> map_of (conditions7 d) (fst r) = Some False"
    using undefined_operand_false [OF rules7_operands [of d] dist] by blast
  show ?thesis
    unfolding verdictInvariants_def evaluateRules7_def makeVerdict_fields
    using keys len undef count_true_card [OF dist] count_true_le [OF rules7_operands [of d]]
    by simp
qed

lemma evaluateConditions3_returns:
  "hasCounters st ruleKeys3 \<Longrightarrow>
     \<exists>st'. evaluateConditions3 d st = (Inr (evaluateRules3 d), st')
       \<and> totalEvaluations st' = totalEvaluations st + 1
       \<and> totalPassed st' = totalPassed st + (if allConditionsMet (evaluateRules3 d) then 1 else 0)
       \<and> map fst (conditionCounts st') = map fst (conditionCounts st)
       \<and> (\<forall>k. countsOf st' k =
             (case map_of (conditions3 d) k of None \<Rightarrow> countsOf st k
              | Some b \<Rightarrow> map_option (countOutcome b) (countsOf st k)))"
  using finishEvaluation_returns [of "evaluateRules3 d" st]
  by (simp add: evaluateConditions3_def evaluateRules3_def makeVerdict_fields keys_conditions3
        distinct_ruleKeys3)

lemma evaluateConditions7_returns:
  "hasCounters st ruleKeys7 \<Longrightarrow>
     \<exists>st'. evaluateConditions7 d st = (Inr (evaluateRules7 d), st')
       \<and> totalEvaluations st' = totalEvaluations st + 1
       \<and> totalPassed st' = totalPassed st + (if allConditionsMet (evaluateRules7 d) then 1 else 0)
       \<and> map fst (conditionCounts st') = map fst (conditionCounts st)
       \<and> (\<forall>k. countsOf st' k =
             (case map_of (conditions7 d) k of None \<Rightarrow> countsOf st k
              | Some b \<Rightarrow> map_option (countOutcome b) (countsOf st k)))"
  using finishEvaluation_returns [of "evaluateRules7 d" st]
  by (simp add: evaluateConditions7_def evaluateRules7_def makeVerdict_fields keys_conditions7
        distinct_ruleKeys7)

text \<open>
  Claim C4. For every indicator bundle and price, in both rule sets: the verdict has
  \<open>passedConditions\<close> equal to the number of rule keys mapped to true,
  \<open>totalConditions\<close> equal to the number of rules (3 and 7), \<open>allConditionsMet\<close> true
  exactly when the two are equal, and every rule that lacks an operand (\<open>null\<close> or
  \<open>undefined\<close>) mapped to false and not counted as passed. The rules are computed by
  total functions: nothing in them throws. \<open>evaluateConditions\<close> returns this verdict
  whenever the statistics have a counter for each rule, and never returns another one.
\<close>

theorem verdict_invariants:
  "verdictInvariants (evaluateRules3 d) (ruleOperands3 d)
   \<and> totalConditions (evaluateRules3 d) = 3
   \<and> (hasCounters st ruleKeys3 \<longrightarrow> fst (evaluateConditions3 d st) = Inr (evaluateRules3 d))
   \<and> (\<forall>v. fst (evaluateConditions3 d st) = Inr v \<longrightarrow> v = evaluateRules3 d)
   \<and> verdictInvariants (evaluateRules7 d) (ruleOperands7 d)
   \<and> totalConditions (evaluateRules7 d) = 7
   \<and> (hasCounters st ruleKeys7 \<longrightarrow> fst (evaluateConditions7 d st) = Inr (evaluateRules7 d))
   \<and> (\<forall>v. fst (evaluateConditions7 d st) = Inr v \<longrightarrow> v = evaluateRules7 d)"
proof (intro conjI impI allI)
  show "verdictInvariants (evaluateRules3 d) (ruleOperands3 d)"
    by (rule evaluateRules3_invariants)
  show "verdictInvariants (evaluateRules7 d) (ruleOperands7 d)"
    by (rule evaluateRules7_invariants)
  show "totalConditions (evaluateRules3 d) = 3"
    using keys_conditions3 [of d] length_ruleKeys(1)
    by (simp add: evaluateRules3_def makeVerdict_fields) (metis length_map)
  show "totalConditions (evaluateRules7 d) = 7"
    using keys_conditions7 [of d] length_ruleKeys(2)
    by (simp add: evaluateRules7_def makeVerdict_fields) (metis length_map)
next
  assume "hasCounters st ruleKeys3"
  then show "fst (evaluateConditions3 d st) = Inr (evaluateRules3 d)"
    using evaluateConditions3_returns [of st d] by auto
next
  assume "hasCounters st ruleKeys7"
  then show "fst (evaluateConditions7 d st) = Inr (evaluateRules7 d)"
    using evaluateConditions7_returns [of st d] by auto
next
  fix v assume "fst (evaluateConditions3 d st) = Inr v"
  then show "v = evaluateRules3 d"
    unfolding evaluateConditions3_def by (rule finishEvaluation_Inr)
next
  fix v assume "fst (evaluateConditions7 d st) = Inr v"
  then show "v = evaluateRules7 d"
    unfolding evaluateConditions7_def by (rule finishEvaluation_Inr)
qed

lemma ruleOperands3_nullData:
  "ruleOperands3 nullData =
     [(''macd5mPositive'', JNull, JNum (Fin 0)), (''ema18Above200_1m'', JNull, JNull),
      (''priceAboveVwap'', JUndefined, JNull)]"
  by (simp add: ruleOperands3_def nullData_def getMACDHistogram_def closePriceOf_def js_or_def
        lastCandleClose_def)

lemma hasCounters_new3: "hasCounters newStatistics3 ruleKeys3"
  by (simp add: hasCounters_def countsOf_def newStatistics3_def ruleKeys3_def)

lemma hasCounters_new7: "hasCounters newStatistics7 ruleKeys7"
  by (simp add: hasCounters_def countsOf_def newStatistics7_def ruleKeys7_def)

text \<open>
  Claim C4, at the bundle in which everything is \<open>null\<close>: the price rule has the
  operands \<open>undefined\<close> and \<open>null\<close> and is mapped to false, no rule is counted as
  passed, and both evaluators return the verdict on a new service.
\<close>

theorem verdict_invariants_witness:
  "(''priceAboveVwap'', JUndefined, JNull) \<in> set (ruleOperands3 nullData)
   \<and> \<not> operandsDefined (''priceAboveVwap'', JUndefined, JNull)
   \<and> map_of (conditions (evaluateRules3 nullData)) ''priceAboveVwap'' = Some False
   \<and> passedConditions (evaluateRules3 nullData) = 0
   \<and> hasCounters newStatistics3 ruleKeys3
   \<and> fst (evaluateConditions3 nullData newStatistics3) = Inr (evaluateRules3 nullData)
   \<and> hasCounters newStatistics7 ruleKeys7
   \<and> fst (evaluateConditions7 nullData newStatistics7) = Inr (evaluateRules7 nullData)"
proof -
  note t3 = verdict_invariants [of nullData newStatistics3]
  note t7 = verdict_invariants [of nullData newStatistics7]
  have inv: "verdictInvariants (evaluateRules3 nullData) (ruleOperands3 nullData)"
    using t3 by blast
  have m: "(''priceAboveVwap'', JUndefined, JNull) \<in> set (ruleOperands3 nullData)"
    by (simp add: ruleOperands3_nullData)
  have u: "\<not> operandsDefined (''priceAboveVwap'', JUndefined, JNull)"
    by (simp add: operandsDefined_def nullish_def)
  have f: "map_of (conditions (evaluateRules3 nullData)) ''priceAboveVwap'' = Some False"
    using inv m u unfolding verdictInvariants_def by fastforce
  have "filter operandsDefined (ruleOperands3 nullData) = []"
    by (simp add: ruleOperands3_nullData operandsDefined_def nullish_def)
  then have p: "passedConditions (evaluateRules3 nullData) = 0"
    using inv unfolding verdictInvariants_def by simp
  have r3: "fst (evaluateConditions3 nullData newStatistics3) = Inr (evaluateRules3 nullData)"
    using t3 hasCounters_new3 by blast
  have r7: "fst (evaluateConditions7 nullData newStatistics7) = Inr (evaluateRules7 nullData)"
    using t7 hasCounters_new7 by blast
  show ?thesis
    using m u f p r3 r7 hasCounters_new3 hasCounters_new7 by blast
qed

subsection \<open>Consistency of the statistics\<close>

lemma countOutcome_sum: "passed (countOutcome b c) + failed (countOutcome b c) = passed c + failed c + 1"
  by (simp add: countOutcome_def)

lemma hasCounters_keys: "hasCounters st keys \<longleftrightarrow> set keys \<subseteq> set (map fst (conditionCounts st))"
  by (auto simp add: hasCounters_def countsOf_def map_of_None_keys)

lemma consistent_hasCounters: "statisticsConsistent st keys \<Longrightarrow> hasCounters st keys"
  by (auto simp add: statisticsConsistent_def hasCounters_def)

lemma updateCounts_keys: "map fst (snd (updateCounts conds cc)) = map fst cc"
proof (induction conds arbitrary: cc)
  case Nil
  then show ?case by simp
next
  case (Cons kb rest)
  obtain k b where kb: "kb = (k, b)" by (cases kb)
  show ?case
  proof (cases "incrementCount k b cc")
    case None
    then show ?thesis by (simp add: kb)
  next
    case (Some cc')
    then show ?thesis
      using Cons.IH [of cc'] incrementCount_keys [of k b cc cc'] by (simp add: kb)
  qed
qed

lemma finishEvaluation_keys:
  "map fst (conditionCounts (snd (finishEvaluation v st))) = map fst (conditionCounts st)"
proof -
  obtain e cc where u: "updateCounts (conditions v) (conditionCounts st) = (e, cc)"
    by (cases "updateCounts (conditions v) (conditionCounts st)")
  then have "map fst cc = map fst (conditionCounts st)"
    using updateCounts_keys [of "conditions v" "conditionCounts st"] by simp
  with u show ?thesis
    by (cases e) (simp_all add: finishEvaluation_def updateStatistics_def Let_def)
qed

text \<open>One call in a state that has the counters of the rules.\<close>

lemma finishEvaluation_consistent:
  assumes "distinct (map fst (conditions v))"
    and "statisticsConsistent st (map fst (conditions v))"
  shows "\<exists>st'. finishEvaluation v st = (Inr v, st')
           \<and> statisticsConsistent st' (map fst (conditions v))
           \<and> totalEvaluations st' = totalEvaluations st + 1"
proof -
  let ?keys = "map fst (conditions v)"
  from assms(2) have hc: "hasCounters st ?keys" by (rule consistent_hasCounters)
  from finishEvaluation_returns [OF assms(1) hc]
  obtain st' where st': "finishEvaluation v st = (Inr v, st')"
      "totalEvaluations st' = totalEvaluations st + 1"
      "totalPassed st' = totalPassed st + (if allConditionsMet v then 1 else 0)"
      "\<forall>k. countsOf st' k = (case map_of (conditions v) k of None \<Rightarrow> countsOf st k
                  | Some b \<Rightarrow> map_option (countOutcome b) (countsOf st k))"
    by blast
  have "\<exists>c. countsOf st' k = Some c \<and> passed c + failed c = totalEvaluations st'"
    if k: "k \<in> set ?keys" for k
  proof -
    from k obtain b where b: "map_of (conditions v) k = Some b"
      using map_of_None_keys [of "conditions v" k] by (cases "map_of (conditions v) k") auto
    from assms(2) k obtain c where c: "countsOf st k = Some c"
        "passed c + failed c = totalEvaluations st"
      by (auto simp add: statisticsConsistent_def)
    from st'(4) b c have "countsOf st' k = Some (countOutcome b c)" by simp
    with c st'(2) show ?thesis by (simp add: countOutcome_sum)
  qed
  moreover have "totalPassed st' \<le> totalEvaluations st'"
    using assms(2) st'(2,3) by (simp add: statisticsConsistent_def)
  ultimately have "statisticsConsistent st' ?keys"
    by (simp add: statisticsConsistent_def)
  with st' show ?thesis by blast
qed

lemma evaluateConditions3_consistent:
  "statisticsConsistent st ruleKeys3 \<Longrightarrow>
     \<exists>st'. evaluateConditions3 d st = (Inr (evaluateRules3 d), st')
       \<and> statisticsConsistent st' ruleKeys3 \<and> totalEvaluations st' = totalEvaluations st + 1"
  using finishEvaluation_consistent [of "evaluateRules3 d" st]
  by (simp add: evaluateConditions3_def evaluateRules3_def makeVerdict_fields keys_conditions3
        distinct_ruleKeys3)

lemma evaluateConditions7_consistent:
  "statisticsConsistent st ruleKeys7 \<Longrightarrow>
     \<exists>st'. evaluateConditions7 d st = (Inr (evaluateRules7 d), st')
       \<and> statisticsConsistent st' ruleKeys7 \<and> totalEvaluations st' = totalEvaluations st + 1"
  using finishEvaluation_consistent [of "evaluateRules7 d" st]
  by (simp add: evaluateConditions7_def evaluateRules7_def makeVerdict_fields keys_conditions7
        distinct_ruleKeys7)

text \<open>A sequence of calls: induction on the inputs, for any consistent statistics at the start.\<close>

lemma callAll_consistent:
  assumes step: "\<And>d st. statisticsConsistent st keys \<Longrightarrow>
                   \<exists>v st'. ev d st = (Inr v, st') \<and> statisticsConsistent st' keys
                     \<and> totalEvaluations st' = totalEvaluations st + 1"
    and "statisticsConsistent st keys"
  shows "statisticsConsistent (snd (callAll ev ds st)) keys
         \<and> totalEvaluations (snd (callAll ev ds st)) = totalEvaluations st + length ds
         \<and> (\<forall>r \<in> set (fst (callAll ev ds st)). \<exists>v. r = Inr v)"
  using assms(2)
proof (induction ds arbitrary: st)
  case Nil
  then show ?case by simp
next
  case (Cons d ds)
  from step [OF Cons.prems, of d] obtain v st' where s: "ev d st = (Inr v, st')"
      "statisticsConsistent st' keys" "totalEvaluations st' = totalEvaluations st + 1"
    by blast
  from Cons.IH [OF s(2)] s(1,3) show ?case
    by (simp add: split_beta)
qed

lemma consistent_new3: "statisticsConsistent newStatistics3 ruleKeys3"
  by (simp add: statisticsConsistent_def countsOf_def newStatistics3_def ruleKeys3_def zeroCounts_def)

lemma consistent_new7: "statisticsConsistent newStatistics7 ruleKeys7"
  by (simp add: statisticsConsistent_def countsOf_def newStatistics7_def ruleKeys7_def zeroCounts_def)

lemma evaluateAll3_consistent:
  "statisticsConsistent (snd (evaluateAll3 ds newStatistics3)) ruleKeys3
   \<and> totalEvaluations (snd (evaluateAll3 ds newStatistics3)) = length ds
   \<and> (\<forall>r \<in> set (fst (evaluateAll3 ds newStatistics3)). \<exists>v. r = Inr v)"
proof -
  have "statisticsConsistent (snd (callAll evaluateConditions3 ds newStatistics3)) ruleKeys3
         \<and> totalEvaluations (snd (callAll evaluateConditions3 ds newStatistics3))
             = totalEvaluations newStatistics3 + length ds
         \<and> (\<forall>r \<in> set (fst (callAll evaluateConditions3 ds newStatistics3)). \<exists>v. r = Inr v)"
  proof (rule callAll_consistent)
    show "statisticsConsistent newStatistics3 ruleKeys3" by (rule consistent_new3)
  next
    fix d st assume "statisticsConsistent st ruleKeys3"
    then show "\<exists>v st'. evaluateConditions3 d st = (Inr v, st') \<and> statisticsConsistent st' ruleKeys3
                 \<and> totalEvaluations st' = totalEvaluations st + 1"
      using evaluateConditions3_consistent [of st d] by blast
  qed
  then show ?thesis by (simp add: evaluateAll3_def newStatistics3_def)
qed

lemma evaluateAll7_consistent:
  "statisticsConsistent (snd (evaluateAll7 ds newStatistics7)) ruleKeys7
   \<and> totalEvaluations (snd (evaluateAll7 ds newStatistics7)) = length ds
   \<and> (\<forall>r \<in> set (fst (evaluateAll7 ds newStatistics7)). \<exists>v. r = Inr v)"
proof -
  have "statisticsConsistent (snd (callAll evaluateConditions7 ds newStatistics7)) ruleKeys7
         \<and> totalEvaluations (snd (callAll evaluateConditions7 ds newStatistics7))
             = totalEvaluations newStatistics7 + length ds
         \<and> (\<forall>r \<in> set (fst (callAll evaluateConditions7 ds newStatistics7)). \<exists>v. r = Inr v)"
  proof (rule callAll_consistent)
    show "statisticsConsistent newStatistics7 ruleKeys7" by (rule consistent_new7)
  next
    fix d st assume "statisticsConsistent st ruleKeys7"
    then show "\<exists>v st'. evaluateConditions7 d st = (Inr v, st') \<and> statisticsConsistent st' ruleKeys7
                 \<and> totalEvaluations st' = totalEvaluations st + 1"
      using evaluateConditions7_consistent [of st d] by blast
  qed
  then show ?thesis by (simp add: evaluateAll7_def newStatistics7_def)
qed

lemma finishEvaluation_counts_once:
  assumes "distinct (map fst (conditions v))" and "hasCounters st (map fst (conditions v))"
    and "k \<in> set (map fst (conditions v))" and "countsOf st k = Some c"
  shows "\<exists>b. map_of (conditions v) k = Some b
           \<and> countsOf (snd (finishEvaluation v st)) k = Some (countOutcome b c)"
proof -
  from assms(3) obtain b where b: "map_of (conditions v) k = Some b"
    using map_of_None_keys [of "conditions v" k] by (cases "map_of (conditions v) k") auto
  from finishEvaluation_returns [OF assms(1,2)]
  obtain st' where st': "finishEvaluation v st = (Inr v, st')"
      "\<forall>k. countsOf st' k = (case map_of (conditions v) k of None \<Rightarrow> countsOf st k
                  | Some b \<Rightarrow> map_option (countOutcome b) (countsOf st k))"
    by blast
  from st'(2) b assms(4) have "countsOf st' k = Some (countOutcome b c)" by simp
  with b st'(1) show ?thesis by simp
qed

text \<open>
  Claim C9. From a new service and after any sequence of \<open>evaluateConditions\<close> calls
  (no reset), in both rule sets: every call returned, the number of evaluations is the
  number of calls, every rule key has counters with \<open>passed + failed = totalEvaluations\<close>,
  and \<open>totalPassed \<le> totalEvaluations\<close>. One evaluation changes the counters of every
  rule key once: \<open>passed\<close> goes up by one when the rule holds, \<open>failed\<close> when it does
  not, so their sum goes up by exactly one.
\<close>

theorem statistics_consistency:
  "statisticsConsistent (snd (evaluateAll3 ds newStatistics3)) ruleKeys3
   \<and> totalEvaluations (snd (evaluateAll3 ds newStatistics3)) = length ds
   \<and> (\<forall>r \<in> set (fst (evaluateAll3 ds newStatistics3)). \<exists>v. r = Inr v)
   \<and> statisticsConsistent (snd (evaluateAll7 ds newStatistics7)) ruleKeys7
   \<and> totalEvaluations (snd (evaluateAll7 ds newStatistics7)) = length ds
   \<and> (\<forall>r \<in> set (fst (evaluateAll7 ds newStatistics7)). \<exists>v. r = Inr v)
   \<and> (hasCounters st ruleKeys3 \<and> k \<in> set ruleKeys3 \<and> countsOf st k = Some c \<longrightarrow>
         (\<exists>b. map_of (conditions3 d) k = Some b
            \<and> countsOf (snd (evaluateConditions3 d st)) k = Some (countOutcome b c)))
   \<and> (hasCounters st ruleKeys7 \<and> k \<in> set ruleKeys7 \<and> countsOf st k = Some c \<longrightarrow>
         (\<exists>b. map_of (conditions7 d) k = Some b
            \<and> countsOf (snd (evaluateConditions7 d st)) k = Some (countOutcome b c)))
   \<and> passed (countOutcome b c) + failed (countOutcome b c) = passed c + failed c + 1"
proof -
  have once3: "\<exists>b. map_of (conditions3 d) k = Some b
            \<and> countsOf (snd (evaluateConditions3 d st)) k = Some (countOutcome b c)"
    if "hasCounters st ruleKeys3 \<and> k \<in> set ruleKeys3 \<and> countsOf st k = Some c"
    using that finishEvaluation_counts_once [of "evaluateRules3 d" st k c]
    by (simp add: evaluateConditions3_def evaluateRules3_def makeVerdict_fields keys_conditions3
          distinct_ruleKeys3)
  have once7: "\<exists>b. map_of (conditions7 d) k = Some b
            \<and> countsOf (snd (evaluateConditions7 d st)) k = Some (countOutcome b c)"
    if "hasCounters st ruleKeys7 \<and> k \<in> set ruleKeys7 \<and> countsOf st k = Some c"
    using that finishEvaluation_counts_once [of "evaluateRules7 d" st k c]
    by (simp add: evaluateConditions7_def evaluateRules7_def makeVerdict_fields keys_conditions7
          distinct_ruleKeys7)
  show ?thesis
    using evaluateAll3_consistent [of ds] evaluateAll7_consistent [of ds] once3 once7
      countOutcome_sum [of b c]
    by blast
qed

lemma conditions3_sampleData:
  "conditions3 sampleData =
     [(''macd5mPositive'', True), (''ema18Above200_1m'', True), (''priceAboveVwap'', True)]"
  by (simp add: conditions3_def Let_def sampleData_def getMACDHistogram_def js_or_def
        closePriceOf_def lastCandleClose_def EPSILON_def defaultPercentageTolerance_def
        isGreaterThan_Fin isGreaterThanWithTolerance_Fin)

lemma conditions7_sampleData:
  "map snd (conditions7 sampleData) = [True, True, True, True, True, True, True]"
  by (simp add: conditions7_def Let_def sampleData_def getMACDValue_def js_or_def
        closePriceOf_def lastCandleClose_def EPSILON_def defaultPercentageTolerance_def
        isGreaterThan_Fin isGreaterThanWithTolerance_Fin)

lemma conditions3_nullData:
  "conditions3 nullData =
     [(''macd5mPositive'', False), (''ema18Above200_1m'', False), (''priceAboveVwap'', False)]"
  by (simp add: conditions3_def Let_def nullData_def getMACDHistogram_def js_or_def
        closePriceOf_def lastCandleClose_def isGreaterThan_def isGreaterThanWithTolerance_def)

text \<open>
  Claim C9, at the two calls with the passing bundle and the all-\<open>null\<close> bundle on a new
  service of conditions.js: two evaluations, and the counters of \<open>priceAboveVwap\<close> sum
  to two; after the first call alone they are \<open>passed = 1, failed = 0\<close>.
\<close>

theorem statistics_consistency_witness:
  "totalEvaluations (snd (evaluateAll3 [sampleData, nullData] newStatistics3)) = 2
   \<and> (\<exists>c. countsOf (snd (evaluateAll3 [sampleData, nullData] newStatistics3)) ''priceAboveVwap''
              = Some c
          \<and> passed c + failed c
              = totalEvaluations (snd (evaluateAll3 [sampleData, nullData] newStatistics3)))
   \<and> hasCounters newStatistics3 ruleKeys3
   \<and> ''priceAboveVwap'' \<in> set ruleKeys3
   \<and> countsOf newStatistics3 ''priceAboveVwap'' = Some zeroCounts
   \<and> countsOf (snd (evaluateConditions3 sampleData newStatistics3)) ''priceAboveVwap''
        = Some \<lparr>passed = 1, failed = 0\<rparr>"
proof -
  note t = statistics_consistency [of "[sampleData, nullData]" newStatistics3 "''priceAboveVwap''"
              zeroCounts sampleData True]
  have k: "''priceAboveVwap'' \<in> set ruleKeys3" by (simp add: ruleKeys3_def)
  have z: "countsOf newStatistics3 ''priceAboveVwap'' = Some zeroCounts"
    by (simp add: countsOf_def newStatistics3_def)
  have n: "totalEvaluations (snd (evaluateAll3 [sampleData, nullData] newStatistics3)) = 2"
    using t by simp
  have "statisticsConsistent (snd (evaluateAll3 [sampleData, nullData] newStatistics3)) ruleKeys3"
    using t by blast
  with k have e: "\<exists>c. countsOf (snd (evaluateAll3 [sampleData, nullData] newStatistics3))
                  ''priceAboveVwap'' = Some c
          \<and> passed c + failed c
              = totalEvaluations (snd (evaluateAll3 [sampleData, nullData] newStatistics3))"
    unfolding statisticsConsistent_def by blast
  from t hasCounters_new3 k z
  obtain b where b: "map_of (conditions3 sampleData) ''priceAboveVwap'' = Some b"
      "countsOf (snd (evaluateConditions3 sampleData newStatistics3)) ''priceAboveVwap''
         = Some (countOutcome b zeroCounts)"
    by blast
  from b(1) have "b = True" by (simp add: conditions3_sampleData)
  with b(2) have o: "countsOf (snd (evaluateConditions3 sampleData newStatistics3)) ''priceAboveVwap''
        = Some \<lparr>passed = 1, failed = 0\<rparr>"
    by (simp add: countOutcome_def zeroCounts_def)
  show ?thesis
    using n e hasCounters_new3 k z o by blast
qed

subsection \<open>Two calls on the same input\<close>

text \<open>Two calls on the same input, in a state that has the counters of the rules.\<close>

lemma finishEvaluation_twice:
  assumes "distinct (map fst (conditions v))" and "hasCounters st (map fst (conditions v))"
  shows "\<exists>st1 st2. finishEvaluation v st = (Inr v, st1) \<and> finishEvaluation v st1 = (Inr v, st2)
           \<and> totalEvaluations st2 = totalEvaluations st + 2
           \<and> totalPassed st2 = totalPassed st + (if allConditionsMet v then 2 else 0)"
proof -
  from finishEvaluation_returns [OF assms]
  obtain st1 where st1: "finishEvaluation v st = (Inr v, st1)"
      "totalEvaluations st1 = totalEvaluations st + 1"
      "totalPassed st1 = totalPassed st + (if allConditionsMet v then 1 else 0)"
      "map fst (conditionCounts st1) = map fst (conditionCounts st)"
    by blast
  from assms(2) st1(4) have "hasCounters st1 (map fst (conditions v))"
    by (simp add: hasCounters_keys)
  from finishEvaluation_returns [OF assms(1) this]
  obtain st2 where st2: "finishEvaluation v st1 = (Inr v, st2)"
      "totalEvaluations st2 = totalEvaluations st1 + 1"
      "totalPassed st2 = totalPassed st1 + (if allConditionsMet v then 1 else 0)"
    by blast
  from st1 st2 show ?thesis by simp
qed

lemma evaluateConditions3_twice:
  "hasCounters st ruleKeys3 \<Longrightarrow>
     \<exists>st1 st2. evaluateConditions3 d st = (Inr (evaluateRules3 d), st1)
       \<and> evaluateConditions3 d st1 = (Inr (evaluateRules3 d), st2)
       \<and> totalEvaluations st2 = totalEvaluations st + 2
       \<and> totalPassed st2 = totalPassed st + (if allConditionsMet (evaluateRules3 d) then 2 else 0)"
  using finishEvaluation_twice [of "evaluateRules3 d" st]
  by (simp add: evaluateConditions3_def evaluateRules3_def makeVerdict_fields keys_conditions3
        distinct_ruleKeys3)

lemma evaluateConditions7_twice:
  "hasCounters st ruleKeys7 \<Longrightarrow>
     \<exists>st1 st2. evaluateConditions7 d st = (Inr (evaluateRules7 d), st1)
       \<and> evaluateConditions7 d st1 = (Inr (evaluateRules7 d), st2)
       \<and> totalEvaluations st2 = totalEvaluations st + 2
       \<and> totalPassed st2 = totalPassed st + (if allConditionsMet (evaluateRules7 d) then 2 else 0)"
  using finishEvaluation_twice [of "evaluateRules7 d" st]
  by (simp add: evaluateConditions7_def evaluateRules7_def makeVerdict_fields keys_conditions7
        distinct_ruleKeys7)

text \<open>
  In the service of polygonService.js every state has the seven counters, also after a
  reset: there the two calls always return.
\<close>

lemma reachable7_keys: "reachable7 st \<Longrightarrow> map fst (conditionCounts st) = ruleKeys7"
proof (induction rule: reachable7.induct)
  case 1
  show ?case by (simp add: newStatistics7_def ruleKeys7_def)
next
  case (2 st d)
  then show ?case by (simp add: evaluateConditions7_def finishEvaluation_keys)
next
  case (3 st)
  show ?case by (simp add: resetStatistics7_def newStatistics7_def ruleKeys7_def)
qed

lemma reachable7_hasCounters: "reachable7 st \<Longrightarrow> hasCounters st ruleKeys7"
  by (simp add: hasCounters_keys reachable7_keys)

text \<open>In conditions.js the state after a reset lacks the counters of \<open>priceAboveVwap\<close>.\<close>

lemma reset3_lacks_counters: "\<not> hasCounters (resetStatistics3 st) ruleKeys3"
  by (simp add: hasCounters_def countsOf_def resetStatistics3_def newStatistics7_def ruleKeys3_def)

lemma evaluateConditions3_keys:
  "map fst (conditionCounts (snd (evaluateConditions3 d st))) = map fst (conditionCounts st)"
  by (simp add: evaluateConditions3_def finishEvaluation_keys)

lemma evaluateConditions3_throws:
  "\<not> hasCounters st ruleKeys3 \<Longrightarrow>
     \<exists>st'. evaluateConditions3 d st = (Inl TypeError, st')
       \<and> totalEvaluations st' = totalEvaluations st + 1
       \<and> totalPassed st' = totalPassed st + (if allConditionsMet (evaluateRules3 d) then 1 else 0)"
  using finishEvaluation_throws [of st "evaluateRules3 d"]
  by (simp add: evaluateConditions3_def evaluateRules3_def makeVerdict_fields keys_conditions3)

text \<open>
  Claim C8 fails on the service of conditions.js after \<open>resetStatistics\<close>. For every
  input, the call of \<open>evaluateConditions\<close> after a reset throws a TypeError instead of
  returning a verdict, and so does the second call on the same input: the reset object has
  no counters for \<open>priceAboveVwap\<close>. The two calls still add 2 to \<open>totalEvaluations\<close>.
  The constructor of the same file sets the three counters up, and the reset of the
  service in polygonService.js keeps its seven: there the calls return the verdict. The
  lemmas \<open>evaluateConditions3_twice\<close> and \<open>evaluateConditions7_twice\<close> above show what
  the claim says for every state that has the counters.
\<close>

theorem evaluateConditions3_after_reset:
  "fst (evaluateConditions3 d (resetStatistics3 st)) = Inl TypeError
   \<and> fst (evaluateConditions3 d (snd (evaluateConditions3 d (resetStatistics3 st)))) = Inl TypeError
   \<and> totalEvaluations (snd (evaluateConditions3 d (snd (evaluateConditions3 d (resetStatistics3 st)))))
        = 2
   \<and> countsOf (resetStatistics3 st) ''priceAboveVwap'' = None
   \<and> fst (evaluateConditions3 d newStatistics3) = Inr (evaluateRules3 d)
   \<and> fst (evaluateConditions7 d (resetStatistics7 st)) = Inr (evaluateRules7 d)"
proof -
  let ?s0 = "resetStatistics3 st"
  let ?s1 = "snd (evaluateConditions3 d ?s0)"
  let ?s2 = "snd (evaluateConditions3 d ?s1)"
  have z: "totalEvaluations ?s0 = 0"
    by (simp add: resetStatistics3_def newStatistics7_def)
  obtain t1 where t1: "evaluateConditions3 d ?s0 = (Inl TypeError, t1)"
      "totalEvaluations t1 = totalEvaluations ?s0 + 1"
    using evaluateConditions3_throws [OF reset3_lacks_counters, of d st] by blast
  have "\<not> hasCounters ?s1 ruleKeys3"
    using reset3_lacks_counters [of st] by (simp add: hasCounters_keys evaluateConditions3_keys)
  then obtain t2 where t2: "evaluateConditions3 d ?s1 = (Inl TypeError, t2)"
      "totalEvaluations t2 = totalEvaluations ?s1 + 1"
    using evaluateConditions3_throws [of ?s1 d] by blast
  have a: "fst (evaluateConditions3 d ?s0) = Inl TypeError" using t1 by simp
  have b: "fst (evaluateConditions3 d ?s1) = Inl TypeError" using t2 by simp
  have n: "totalEvaluations ?s2 = 2" using t1 t2 z by simp
  have c: "countsOf ?s0 ''priceAboveVwap'' = None"
    by (simp add: countsOf_def resetStatistics3_def newStatistics7_def)
  have e: "fst (evaluateConditions3 d newStatistics3) = Inr (evaluateRules3 d)"
    using evaluateConditions3_returns [OF hasCounters_new3, of d] by auto
  have "hasCounters (resetStatistics7 st) ruleKeys7"
    using hasCounters_new7 by (simp add: resetStatistics7_def)
  then have f: "fst (evaluateConditions7 d (resetStatistics7 st)) = Inr (evaluateRules7 d)"
    using evaluateConditions7_returns [of "resetStatistics7 st" d] by auto
  from a b n c e f show ?thesis by blast
qed

subsection \<open>The acquisition loop\<close>

lemma early_minute_not_market:
  assumes "timestamp c = day * 86400000 + m * 60000" and "0 \<le> m" and "m < 810"
  shows "\<not> isMarketHours c"
proof -
  have "day * 86400000 + m * 60000 = (day * 24) * 3600000 + m * 60000" by simp
  then have "(day * 86400000 + m * 60000) div 3600000 = day * 24 + (m * 60000) div 3600000"
    by (simp only: div_mult_self3)
  moreover have "(m * 60000) div 3600000 = m div 60" by simp
  ultimately have h: "(day * 86400000 + m * 60000) div 3600000 = day * 24 + m div 60"
    by simp
  have "m div 60 < 24" "0 \<le> m div 60" using assms by simp_all
  then have hh: "(day * 24 + m div 60) mod 24 = m div 60" by simp
  have "(day * 86400000 + m * 60000) div 60000 = (day * 24) * 60 + m" by simp
  then have mm: "(day * 86400000 + m * 60000) div 60000 mod 60 = m mod 60"
    by (simp only: mod_mult_self3)
  have "(m div 60) * 60 + m mod 60 = m" by simp
  with assms h hh mm show ?thesis
    by (simp add: isMarketHours_def Let_def)
qed

lemma offHours_1m:
  assumes "n \<le> 810"
  shows "filter isMarketHours (offHoursCandles n 60000) = []"
proof -
  have "\<not> isMarketHours \<lparr>timestamp = 19675 * 86400000 + int i * 60000, c_open = Fin 1,
                high = Fin 1, low = Fin 1, close = Fin 1, volume = Fin 100\<rparr>" if "i < n" for i
    using that assms
    by (intro early_minute_not_market [where day = 19675 and m = "int i"]) simp_all
  then show ?thesis
    by (auto simp add: offHoursCandles_def filter_empty_conv)
qed

lemma offHours_5m:
  assumes "n \<le> 162"
  shows "filter isMarketHours (offHoursCandles n 300000) = []"
proof -
  have "\<not> isMarketHours \<lparr>timestamp = 19675 * 86400000 + int i * 300000, c_open = Fin 1,
                high = Fin 1, low = Fin 1, close = Fin 1, volume = Fin 100\<rparr>" if "i < n" for i
    using that assms
    by (intro early_minute_not_market [where day = 19675 and m = "int i * 5"]) simp_all
  then show ?thesis
    by (auto simp add: offHoursCandles_def filter_empty_conv)
qed

lemma length_offHours: "length (offHoursCandles n step) = n"
  by (simp add: offHoursCandles_def)

lemma offHours_sessionTest:
  "n \<le> 810 \<Longrightarrow> \<not> sessionTest (offHoursCandles n 60000) c5"
  by (simp add: sessionTest_def offHours_1m)

text \<open>One round of the loop that is not the last and fails the first test.\<close>

lemma acquireLoop_continue:
  assumes "a < 3" and "roundFails (fetch a d)" and "a' = a + 1"
    and "d' = (if d = 10 then 15 else if d = 15 then 20 else 30)"
  shows "\<exists>c1 c5. acquireLoop fetch d a x y = acquireLoop fetch d' a' (Some c1) c5"
proof -
  from assms(2) obtain c1 c5 where f: "fetch a d = Fetched (Some c1) c5"
      "c1 \<noteq> []" "\<not> sessionTest c1 c5"
    by (cases "fetch a d" rule: roundFails.cases) auto
  with assms(1,3,4) have "acquireLoop fetch d a x y = acquireLoop fetch d' a' (Some c1) c5"
    by (subst acquireLoop.simps) (simp add: maxAttempts_def)
  then show ?thesis by blast
qed

text \<open>The last round, when the first test fails and there are 200 unfiltered candles.\<close>

lemma acquireLoop_last:
  assumes "fetch 3 d = Fetched (Some c1) c5" and "\<not> sessionTest c1 c5" and "200 \<le> length c1"
  shows "acquireLoop fetch d 3 x y = Inr (Some c1, c5, False)"
proof -
  from assms(3) have "c1 \<noteq> []" by auto
  with assms show ?thesis
    by (subst acquireLoop.simps) (simp add: maxAttempts_def)
qed

lemma acquireLoop_reaches_last:
  assumes "roundFails (fetch 0 10)" and "roundFails (fetch 1 15)" and "roundFails (fetch 2 20)"
  shows "\<exists>x y. acquireLoop fetch 10 0 None None = acquireLoop fetch 30 3 x y"
proof -
  have "\<exists>c1 c5. acquireLoop fetch 10 0 None None = acquireLoop fetch 15 1 (Some c1) c5"
    using assms(1) by (intro acquireLoop_continue) simp_all
  then obtain a1 b1 where r1:
      "acquireLoop fetch 10 0 None None = acquireLoop fetch 15 1 (Some a1) b1"
    by blast
  have "\<exists>c1 c5. acquireLoop fetch 15 1 (Some a1) b1 = acquireLoop fetch 20 2 (Some c1) c5"
    using assms(2) by (intro acquireLoop_continue) simp_all
  then obtain a2 b2 where r2:
      "acquireLoop fetch 15 1 (Some a1) b1 = acquireLoop fetch 20 2 (Some a2) b2"
    by blast
  have "\<exists>c1 c5. acquireLoop fetch 20 2 (Some a2) b2 = acquireLoop fetch 30 3 (Some c1) c5"
    using assms(3) by (intro acquireLoop_continue) simp_all
  then obtain a3 b3 where r3:
      "acquireLoop fetch 20 2 (Some a2) b2 = acquireLoop fetch 30 3 (Some a3) b3"
    by blast
  from r1 r2 r3 have "acquireLoop fetch 10 0 None None = acquireLoop fetch 30 3 (Some a3) b3"
    by (simp only:)
  then show ?thesis by blast
qed

lemma acquire_final_unfiltered:
  assumes "roundFails (fetch 0 10)" and "roundFails (fetch 1 15)" and "roundFails (fetch 2 20)"
    and "fetch 3 30 = Fetched (Some c1) c5"
    and "\<not> sessionTest c1 c5" and "200 \<le> length c1"
  shows "acquireLoop fetch 10 0 None None = Inr (Some c1, c5, False)
         \<and> acquireCandles fetch =
             (case c5 of
                None \<Rightarrow> Inl InsufficientData
              | Some l5 \<Rightarrow> if 50 \<le> length l5 then Inr (c1, l5, False) else Inl InsufficientData)"
proof -
  from acquireLoop_reaches_last [OF assms(1-3)]
  obtain x y where "acquireLoop fetch 10 0 None None = acquireLoop fetch 30 3 x y" by blast
  with acquireLoop_last [of fetch 30 c1 c5 x y] assms(4-6)
  have loop: "acquireLoop fetch 10 0 None None = Inr (Some c1, c5, False)" by simp
  with assms(6) show ?thesis
    by (cases c5) (auto simp add: acquireCandles_def)
qed

lemma offHours_roundFails:
  "roundFails (Fetched (Some (offHoursCandles 200 60000)) c5)"
proof -
  have "offHoursCandles 200 60000 \<noteq> []"
    using length_offHours [of 200 60000] by (metis length_0_conv zero_neq_numeral)
  then show ?thesis by (simp add: offHours_sessionTest)
qed

text \<open>
  Claim C3 as stated fails: a provider that answers every round with 200 one-minute
  candles and 40 five-minute candles, all outside the session. Every round fails the
  session test; in the fourth round the unfiltered one-minute count is 200, and the loop
  stops with the unfiltered sequences. The check after the loop then finds fewer than 50
  five-minute candles, and the acquisition fails.
\<close>

theorem final_attempt_coarse_too_short:
  "roundFails (thinFetch 0 10) \<and> roundFails (thinFetch 1 15) \<and> roundFails (thinFetch 2 20)
   \<and> thinFetch 3 30 = Fetched (Some (offHoursCandles 200 60000)) (Some (offHoursCandles 40 300000))
   \<and> \<not> sessionTest (offHoursCandles 200 60000) (Some (offHoursCandles 40 300000))
   \<and> 200 \<le> length (offHoursCandles 200 60000)
   \<and> acquireLoop thinFetch 10 0 None None
        = Inr (Some (offHoursCandles 200 60000), Some (offHoursCandles 40 300000), False)
   \<and> acquireCandles thinFetch = Inl InsufficientData"
proof -
  have r: "roundFails (thinFetch a d)" for a d
    by (simp only: thinFetch_def offHours_roundFails)
  have f: "thinFetch 3 30
             = Fetched (Some (offHoursCandles 200 60000)) (Some (offHoursCandles 40 300000))"
    by (simp only: thinFetch_def)
  have t: "\<not> sessionTest (offHoursCandles 200 60000) (Some (offHoursCandles 40 300000))"
    by (rule offHours_sessionTest) simp
  have l: "200 \<le> length (offHoursCandles 200 60000)"
    by (simp add: length_offHours)
  note a = acquire_final_unfiltered [of thinFetch "offHoursCandles 200 60000"
              "Some (offHoursCandles 40 300000)", OF r r r f t l]
  from a r f t l show ?thesis
    by (simp add: length_offHours)
qed

text \<open>
  Claim C3, amended. When the first three rounds fail the session test, and the fourth
  round fails it too with at least 200 unfiltered one-minute candles, the loop stops with
  the unfiltered sequences, and the acquisition succeeds with them exactly when the
  unfiltered five-minute sequence is there and has at least 50 candles; otherwise the
  acquisition fails.
\<close>

theorem final_attempt_unfiltered:
  assumes "roundFails (fetch 0 10)" and "roundFails (fetch 1 15)" and "roundFails (fetch 2 20)"
    and "fetch 3 30 = Fetched (Some c1) c5"
    and "\<not> sessionTest c1 c5" and "200 \<le> length c1"
  shows "acquireLoop fetch 10 0 None None = Inr (Some c1, c5, False)
         \<and> acquireCandles fetch =
             (case c5 of
                None \<Rightarrow> Inl InsufficientData
              | Some l5 \<Rightarrow> if 50 \<le> length l5 then Inr (c1, l5, False) else Inl InsufficientData)"
  using assms by (rule acquire_final_unfiltered)

text \<open>
  Claim C3, amended, at a provider that answers every round with 200 one-minute candles
  and 60 five-minute candles, all outside the session: the acquisition succeeds with the
  unfiltered sequences.
\<close>

theorem final_attempt_unfiltered_witness:
  "roundFails (thickFetch 0 10) \<and> roundFails (thickFetch 1 15) \<and> roundFails (thickFetch 2 20)
   \<and> thickFetch 3 30 = Fetched (Some (offHoursCandles 200 60000)) (Some (offHoursCandles 60 300000))
   \<and> \<not> sessionTest (offHoursCandles 200 60000) (Some (offHoursCandles 60 300000))
   \<and> 200 \<le> length (offHoursCandles 200 60000)
   \<and> acquireCandles thickFetch = Inr (offHoursCandles 200 60000, offHoursCandles 60 300000, False)"
proof -
  have r: "roundFails (thickFetch a d)" for a d
    by (simp only: thickFetch_def offHours_roundFails)
  have f: "thickFetch 3 30
             = Fetched (Some (offHoursCandles 200 60000)) (Some (offHoursCandles 60 300000))"
    by (simp only: thickFetch_def)
  have t: "\<not> sessionTest (offHoursCandles 200 60000) (Some (offHoursCandles 60 300000))"
    by (rule offHours_sessionTest) simp
  have l: "200 \<le> length (offHoursCandles 200 60000)"
    by (simp add: length_offHours)
  note a = final_attempt_unfiltered [of thickFetch "offHoursCandles 200 60000"
              "Some (offHoursCandles 60 300000)", OF r r r f t l]
  from a r f t l show ?thesis
    by (simp add: length_offHours)
qed

end
